theory Spec2Isabelle
  imports Complex_Main "HOL-Library.AList" "HOL-Library.Char_ord" "HOL-Library.List_Lexorder"
begin

section \<open>Vertex overlap checker of the GS Model Helper add-on\<close>

text \<open>
  The development embeds the two operators of \<^verbatim>\<open>src/__init__.py\<close> that carry the
  overlap analysis: \<^verbatim>\<open>OBJECT_OT_check_vertex_overlaps.execute\<close> (the analyzer) and
  \<^verbatim>\<open>OBJECT_OT_select_overlap_vertices.execute\<close> (the materializer), together with
  \<^verbatim>\<open>validate_active_object\<close> and the Python built-ins they call.

  Conventions of the embedding.
  \<^item> A Python \<^verbatim>\<open>str\<close> is a \<^typ>\<open>string\<close>; a \<^typ>\<open>char\<close> stands for a code point below 256.
    The order on strings is the lexicographic order on code points, as Python's.
  \<^item> A weight is a \<^typ>\<open>real\<close>; the only operation of the source on a weight is the test
    \<^verbatim>\<open>g.weight > 0.0\<close>.
  \<^item> The calls \<^verbatim>\<open>wm.progress_begin\<close>, \<^verbatim>\<open>wm.progress_update\<close> and \<^verbatim>\<open>wm.progress_end\<close>
    write to the host's progress bar and return nothing to the computation; so do the mode
    switches of the materializer. They are left out.
  \<^item> An operator returns its status set, the message passed to \<^verbatim>\<open>self.report\<close> (if any) and
    the part of the host state it may have changed.
\<close>

subsection \<open>Host data\<close>

text \<open>An element of \<^verbatim>\<open>v.groups\<close>: the index of a vertex group and the weight in it.\<close>

record VertexGroupElement =
  g_group :: nat
  g_weight :: real

text \<open>A mesh vertex: \<^verbatim>\<open>v.index\<close> and \<^verbatim>\<open>v.groups\<close>.\<close>

record MeshVertex =
  v_index :: nat
  v_groups :: "VertexGroupElement list"

text \<open>
  The active object: \<^verbatim>\<open>obj.type\<close>, the names of \<^verbatim>\<open>obj.vertex_groups\<close> in index order, and
  \<^verbatim>\<open>obj.data.vertices\<close>.
\<close>

record Object =
  obj_type :: string
  vertex_groups :: "string list"
  vertices :: "MeshVertex list"

record Context =
  active_object :: "Object option"
  selected_objects :: "Object list"

text \<open>The property group \<^verbatim>\<open>VertexOverlapItem\<close>.\<close>

record VertexOverlapItem =
  groups :: string
  count :: int
  verts :: string
  selected :: bool

text \<open>A face of the edit mesh: the indices of \<^verbatim>\<open>f.verts\<close> and the flag \<^verbatim>\<open>f.select\<close>.\<close>

record BMFace =
  f_verts :: "int list"
  f_select :: bool

datatype py_error = IndexError | ValueError

datatype status = FINISHED | CANCELLED | RAISED py_error

datatype level = INFO | WARNING | ERROR

type_synonym report = "(level \<times> string) option"

subsection \<open>Python built-ins\<close>

text \<open>\<^verbatim>\<open>str.isspace\<close> on one code point below 256.\<close>

definition isspace :: "char \<Rightarrow> bool" where
  "isspace c = (let n = (of_char c :: nat) in
     (9 \<le> n \<and> n \<le> 13) \<or> (28 \<le> n \<and> n \<le> 32) \<or> n = 133 \<or> n = 160)"

text \<open>\<^verbatim>\<open>s.strip()\<close>.\<close>

definition strip :: "string \<Rightarrow> string" where
  "strip s = rev (dropWhile isspace (rev (dropWhile isspace s)))"

text \<open>\<^verbatim>\<open>s.lower()\<close> on code points below 256.\<close>

definition lower_char :: "char \<Rightarrow> char" where
  "lower_char c = (let n = (of_char c :: nat) in
     if (65 \<le> n \<and> n \<le> 90) \<or> (192 \<le> n \<and> n \<le> 222 \<and> n \<noteq> 215) then char_of (n + 32) else c)"

definition lower :: "string \<Rightarrow> string" where
  "lower s = map lower_char s"

text \<open>\<^verbatim>\<open>str(n)\<close> for a non-negative integer.\<close>

definition digit_char :: "nat \<Rightarrow> char" where
  "digit_char d = char_of (48 + d)"

fun str_nat :: "nat \<Rightarrow> string" where
  "str_nat n = (if n < 10 then [digit_char n] else str_nat (n div 10) @ [digit_char (n mod 10)])"

declare str_nat.simps [simp del]

text \<open>\<^verbatim>\<open>sep.join(xs)\<close>.\<close>

fun join :: "string \<Rightarrow> string list \<Rightarrow> string" where
  "join sep [] = []"
| "join sep [x] = x"
| "join sep (x # y # ys) = x @ sep @ join sep (y # ys)"

text \<open>\<^verbatim>\<open>s.split(",")\<close>: the pieces between commas; never the empty list.\<close>

fun split_comma :: "string \<Rightarrow> string list" where
  "split_comma [] = [[]]"
| "split_comma (c # cs) =
     (if c = CHR '','' then [] # split_comma cs
      else (case split_comma cs of [] \<Rightarrow> [[c]] | p # ps \<Rightarrow> (c # p) # ps))"

text \<open>
  \<^verbatim>\<open>int(s)\<close> in base 10: white space around the literal is dropped, one sign is allowed,
  then decimal digits, where single underscores may stand between two digits. Anything
  else raises \<^verbatim>\<open>ValueError\<close>. (The limit that recent interpreters put on the number of
  digits, also a \<^verbatim>\<open>ValueError\<close>, is beyond any vertex index and is not modelled.)
\<close>

definition isdigit :: "char \<Rightarrow> bool" where
  "isdigit c = (let n = (of_char c :: nat) in 48 \<le> n \<and> n \<le> 57)"

definition digit_val :: "char \<Rightarrow> nat" where
  "digit_val c = of_char c - 48"

fun grouped_digits :: "string \<Rightarrow> bool" where
  "grouped_digits [] = False"
| "grouped_digits [c] = isdigit c"
| "grouped_digits (c # d # cs) =
     (isdigit c \<and> (if d = CHR ''_'' then grouped_digits cs else grouped_digits (d # cs)))"

definition digits_value :: "string \<Rightarrow> nat" where
  "digits_value s = foldl (\<lambda>acc c. 10 * acc + digit_val c) 0 (filter isdigit s)"

definition py_int :: "string \<Rightarrow> py_error + int" where
  "py_int s =
     (case strip s of
        [] \<Rightarrow> Inl ValueError
      | c # cs \<Rightarrow>
          if c = CHR ''-'' then
            (if grouped_digits cs then Inr (- int (digits_value cs)) else Inl ValueError)
          else if c = CHR ''+'' then
            (if grouped_digits cs then Inr (int (digits_value cs)) else Inl ValueError)
          else
            (if grouped_digits (c # cs) then Inr (int (digits_value (c # cs))) else Inl ValueError))"

text \<open>\<^verbatim>\<open>itertools.combinations(xs, 2)\<close>: the pairs of two positions, in position order.\<close>

fun combinations2 :: "'a list \<Rightarrow> ('a \<times> 'a) list" where
  "combinations2 [] = []"
| "combinations2 (x # xs) = map (Pair x) xs @ combinations2 xs"

subsection \<open>Validation of the active object\<close>

definition validate_active_object :: "Context \<Rightarrow> string \<Rightarrow> bool \<Rightarrow> string + Object" where
  "validate_active_object context required_type require_selected =
     (if require_selected \<and> selected_objects context = [] then Inl ''No objects selected''
      else case active_object context of
        None \<Rightarrow> Inl ''No active object selected''
      | Some obj \<Rightarrow>
          if obj_type obj \<noteq> required_type then
            Inl (''Active object must be a '' @ lower required_type @ '', not '' @ lower (obj_type obj))
          else Inr obj)"

subsection \<open>The analyzer: \<^verbatim>\<open>OBJECT_OT_check_vertex_overlaps.execute\<close>\<close>

text \<open>
  \<^verbatim>\<open>overlaps_map\<close> is a dictionary from pairs of names to sets of vertex indices. Python
  dictionaries keep the order in which keys were first inserted, and the second loop of
  the operator walks the dictionary in that order, so the dictionary is an association
  list: \<^const>\<open>AList.update\<close> replaces the value of a key in place and appends a new key at
  the end.
\<close>

type_synonym overlaps_map = "((string \<times> string) \<times> nat set) list"

text \<open>\<^verbatim>\<open>vertex_groups[i].name\<close>: an index past the end raises \<^verbatim>\<open>IndexError\<close>.\<close>

definition group_name :: "string list \<Rightarrow> nat \<Rightarrow> py_error + string" where
  "group_name vgs i = (if i < length vgs then Inr (vgs ! i) else Inl IndexError)"

text \<open>
  \<^verbatim>\<open>[vertex_groups[g.group].name for g in v.groups if g.weight > 0.0]\<close>: the filter runs
  before the lookup, so only an element with positive weight can raise.
\<close>

fun active_group_names :: "string list \<Rightarrow> VertexGroupElement list \<Rightarrow> py_error + string list" where
  "active_group_names vgs [] = Inr []"
| "active_group_names vgs (g # gs) =
     (if g_weight g > 0 then
        (case group_name vgs (g_group g) of
           Inl e \<Rightarrow> Inl e
         | Inr n \<Rightarrow> (case active_group_names vgs gs of Inl e \<Rightarrow> Inl e | Inr ns \<Rightarrow> Inr (n # ns)))
      else active_group_names vgs gs)"

text \<open>
  Lines 421 to 423: \<^verbatim>\<open>if key not in overlaps_map: overlaps_map[key] = set()\<close> followed by
  \<^verbatim>\<open>overlaps_map[key].add(v.index)\<close>.
\<close>

definition add_overlap :: "string \<times> string \<Rightarrow> nat \<Rightarrow> overlaps_map \<Rightarrow> overlaps_map" where
  "add_overlap key i m =
     (case map_of m key of
        None \<Rightarrow> AList.update key {i} m
      | Some s \<Rightarrow> AList.update key (insert i s) m)"

text \<open>The body of the loop over the vertices for one vertex whose names are known.\<close>

definition add_vertex :: "nat \<Rightarrow> string list \<Rightarrow> overlaps_map \<Rightarrow> overlaps_map" where
  "add_vertex i names m =
     (if length names > 1 then
        foldl (\<lambda>acc key. add_overlap key i acc) m (combinations2 (sort names))
      else m)"

fun scan_vertices :: "string list \<Rightarrow> MeshVertex list \<Rightarrow> overlaps_map \<Rightarrow> py_error + overlaps_map" where
  "scan_vertices vgs [] m = Inr m"
| "scan_vertices vgs (v # vs) m =
     (case active_group_names vgs (v_groups v) of
        Inl e \<Rightarrow> Inl e
      | Inr names \<Rightarrow> scan_vertices vgs vs (add_vertex (v_index v) names m))"

text \<open>Lines 425 to 431: one item per key, in dictionary order.\<close>

definition make_item :: "(string \<times> string) \<times> nat set \<Rightarrow> VertexOverlapItem" where
  "make_item e =
     (case e of ((g1, g2), vs) \<Rightarrow>
        (let unique_verts = sorted_list_of_set vs in
         \<lparr> groups = g1 @ '' + '' @ g2,
           count = int (length unique_verts),
           verts = join '','' (map str_nat unique_verts),
           selected = False \<rparr>))"

text \<open>
  The operator. Its third component is \<^verbatim>\<open>scene.vertex_overlap_list\<close> after the call; the
  argument \<open>old_list\<close> is that list before the call. An exception in the first loop leaves
  the list cleared.
\<close>

definition check_vertex_overlaps ::
  "Context \<Rightarrow> VertexOverlapItem list \<Rightarrow> status \<times> report \<times> VertexOverlapItem list" where
  "check_vertex_overlaps context old_list =
     (case validate_active_object context ''MESH'' False of
        Inl error \<Rightarrow> (CANCELLED, Some (ERROR, error), old_list)
      | Inr obj \<Rightarrow>
          if vertex_groups obj = [] then
            (CANCELLED, Some (WARNING, ''No vertex groups found on this mesh''), old_list)
          else
            (case scan_vertices (vertex_groups obj) (vertices obj) [] of
               Inl e \<Rightarrow> (RAISED e, None, [])
             | Inr overlaps \<Rightarrow>
                 (let new_list = map make_item overlaps in
                  if length new_list = 0 then
                    (FINISHED, Some (INFO, ''No overlapping vertex weights found''), new_list)
                  else
                    (FINISHED,
                     Some (INFO, ''Found '' @ str_nat (length new_list) @ '' overlap pairs''),
                     new_list))))"

subsection \<open>The materializer: \<^verbatim>\<open>OBJECT_OT_select_overlap_vertices.execute\<close>\<close>

text \<open>
  \<^verbatim>\<open>[int(i) for i in item.verts.split(",") if i.strip()]\<close>, applied to the pieces of the
  split: blank pieces are skipped, the first piece that is no integer raises.
\<close>

fun parse_pieces :: "string list \<Rightarrow> py_error + int list" where
  "parse_pieces [] = Inr []"
| "parse_pieces (p # ps) =
     (if strip p \<noteq> [] then
        (case py_int p of
           Inl e \<Rightarrow> Inl e
         | Inr n \<Rightarrow> (case parse_pieces ps of Inl e \<Rightarrow> Inl e | Inr ns \<Rightarrow> Inr (n # ns)))
      else parse_pieces ps)"

text \<open>
  The body of the loop over the overlap list (lines 468 to 475) on the pair of
  \<^verbatim>\<open>indices\<close> and \<^verbatim>\<open>selected_count\<close>. A \<^verbatim>\<open>ValueError\<close> is caught and logged, and the item
  adds nothing.
\<close>

definition collect_item :: "VertexOverlapItem \<Rightarrow> int set \<times> nat \<Rightarrow> int set \<times> nat" where
  "collect_item item st =
     (case st of (indices, selected_count) \<Rightarrow>
        if selected item then
          (if strip (verts item) \<noteq> [] then
             (case parse_pieces (split_comma (verts item)) of
                Inl e \<Rightarrow> (indices, selected_count + 1)
              | Inr item_indices \<Rightarrow> (indices \<union> set item_indices, selected_count + 1))
           else (indices, selected_count + 1))
        else (indices, selected_count))"

definition collect_indices :: "VertexOverlapItem list \<Rightarrow> int set \<times> nat" where
  "collect_indices overlap_list = foldl (\<lambda>st item. collect_item item st) ({}, 0) overlap_list"

text \<open>Lines 501 and 502: every face is deselected.\<close>

definition deselect_all :: "BMFace list \<Rightarrow> BMFace list" where
  "deselect_all faces = map (\<lambda>f. f\<lparr>f_select := False\<rparr>) faces"

text \<open>Lines 505 to 509: a face with a vertex in \<^verbatim>\<open>indices\<close> is selected and counted.\<close>

definition touches :: "int set \<Rightarrow> BMFace \<Rightarrow> bool" where
  "touches indices f = list_ex (\<lambda>v. v \<in> indices) (f_verts f)"

definition select_touching :: "int set \<Rightarrow> BMFace list \<Rightarrow> BMFace list \<times> nat" where
  "select_touching indices faces =
     (map (\<lambda>f. if touches indices f then f\<lparr>f_select := True\<rparr> else f) faces,
      length (filter (touches indices) faces))"

text \<open>
  The operator. Its third component is the face list of the edit mesh after the call; the
  argument \<open>faces\<close> is that list before the call.
\<close>

definition select_overlap_vertices ::
  "Context \<Rightarrow> VertexOverlapItem list \<Rightarrow> BMFace list \<Rightarrow> status \<times> report \<times> BMFace list" where
  "select_overlap_vertices context overlap_list faces =
     (case validate_active_object context ''MESH'' False of
        Inl error \<Rightarrow> (CANCELLED, Some (ERROR, error), faces)
      | Inr obj \<Rightarrow>
          if overlap_list = [] then
            (CANCELLED,
             Some (WARNING, ''No overlaps found. Run 'Check Vertex Overlaps' first''), faces)
          else
            (case collect_indices overlap_list of (indices, selected_count) \<Rightarrow>
               if selected_count = 0 then
                 (CANCELLED,
                  Some (WARNING, ''No overlap items selected. Check the boxes next to the items you want to select''),
                  faces)
               else if indices = {} then
                 (CANCELLED, Some (WARNING, ''No vertices found in selected overlap items''), faces)
               else
                 (case select_touching indices (deselect_all faces) of (faces', selected_faces) \<Rightarrow>
                    (FINISHED,
                     Some (INFO, ''Selected '' @ str_nat selected_faces @ '' faces from ''
                                 @ str_nat (card indices) @ '' vertices (''
                                 @ str_nat selected_count @ '' overlap groups)''),
                     faces'))))"

subsection \<open>Notions used to state the properties\<close>

text \<open>The set stored under a key of the dictionary, empty for a key that is absent.\<close>

definition lookup_set :: "overlaps_map \<Rightarrow> string \<times> string \<Rightarrow> nat set" where
  "lookup_set m key = (case map_of m key of None \<Rightarrow> {} | Some s \<Rightarrow> s)"

text \<open>The number of groups in which a vertex has a weight above zero.\<close>

definition active_count :: "MeshVertex \<Rightarrow> nat" where
  "active_count v = length (filter (\<lambda>g. g_weight g > 0) (v_groups v))"

text \<open>
  The vertex indices that the materializer reads from one item: the integers of its
  \<^verbatim>\<open>verts\<close> string, and nothing when the string is blank or ill-formed.
\<close>

definition entry_indices :: "VertexOverlapItem \<Rightarrow> int set" where
  "entry_indices item =
     (if strip (verts item) = [] then {}
      else case parse_pieces (split_comma (verts item)) of Inl e \<Rightarrow> {} | Inr ns \<Rightarrow> set ns)"

text \<open>The union of the index sets of the items whose box is ticked.\<close>

definition chosen_union :: "VertexOverlapItem list \<Rightarrow> int set" where
  "chosen_union overlap_list = (\<Union>item \<in> {i \<in> set overlap_list. selected i}. entry_indices item)"

text \<open>
  The keys to which one vertex adds its index: the pairs that the loop over
  \<^verbatim>\<open>itertools.combinations(sorted(groups), 2)\<close> runs through.
\<close>

definition vertex_keys :: "string list \<Rightarrow> MeshVertex \<Rightarrow> (string \<times> string) set" where
  "vertex_keys vgs v =
     (case active_group_names vgs (v_groups v) of
        Inl e \<Rightarrow> {}
      | Inr names \<Rightarrow> set (combinations2 (sort names)))"

text \<open>Every set of the table is finite and non-empty.\<close>

definition sets_ok :: "overlaps_map \<Rightarrow> bool" where
  "sets_ok m = (\<forall>e \<in> set m. finite (snd e) \<and> snd e \<noteq> {})"

subsection \<open>Example data\<close>

text \<open>
  The scenario of the specification: the groups Hip, Spine and Tail on four vertices, and
  two triangles.
\<close>

definition ex_object :: Object where
  "ex_object =
     \<lparr> obj_type = ''MESH'',
       vertex_groups = [''Hip'', ''Spine'', ''Tail''],
       vertices =
         [\<lparr> v_index = 0, v_groups = [\<lparr> g_group = 0, g_weight = 0.6 \<rparr>, \<lparr> g_group = 1, g_weight = 0.4 \<rparr>] \<rparr>,
          \<lparr> v_index = 1, v_groups = [\<lparr> g_group = 0, g_weight = 1 \<rparr>] \<rparr>,
          \<lparr> v_index = 2, v_groups = [\<lparr> g_group = 2, g_weight = 0.2 \<rparr>, \<lparr> g_group = 1, g_weight = 0.3 \<rparr>] \<rparr>,
          \<lparr> v_index = 3, v_groups = [] \<rparr>] \<rparr>"

definition ex_context :: Context where
  "ex_context = \<lparr> active_object = Some ex_object, selected_objects = [] \<rparr>"

definition ex_items :: "VertexOverlapItem list" where
  "ex_items =
     [\<lparr> groups = ''Hip + Spine'', count = 1, verts = ''0'', selected = True \<rparr>,
      \<lparr> groups = ''Spine + Tail'', count = 1, verts = ''2'', selected = False \<rparr>]"

definition ex_faces :: "BMFace list" where
  "ex_faces = [\<lparr> f_verts = [0, 1, 2], f_select = False \<rparr>, \<lparr> f_verts = [1, 2, 3], f_select = True \<rparr>]"

text \<open>The table of the first loop on the example.\<close>

definition ex_overlaps :: overlaps_map where
  "ex_overlaps = [((''Hip'', ''Spine''), {0}), ((''Spine'', ''Tail''), {2})]"

text \<open>A mesh without vertex groups.\<close>

definition bare_context :: Context where
  "bare_context =
     \<lparr> active_object =
         Some \<lparr> obj_type = ''MESH'', vertex_groups = [],
                vertices = [\<lparr> v_index = 0, v_groups = [] \<rparr>] \<rparr>,
       selected_objects = [] \<rparr>"



text \<open>The items of the example with no box ticked.\<close>

definition idle_items :: "VertexOverlapItem list" where
  "idle_items =
     [\<lparr> groups = ''Hip + Spine'', count = 1, verts = ''0'', selected = False \<rparr>,
      \<lparr> groups = ''Spine + Tail'', count = 1, verts = ''2'', selected = False \<rparr>]"

section \<open>Properties\<close>

subsection \<open>The dictionary of overlaps\<close>

lemma lookup_set_add_overlap:
  "lookup_set (add_overlap key i m) k = (if k = key then insert i (lookup_set m key) else lookup_set m k)"
  by (auto simp: lookup_set_def add_overlap_def update_conv' split: option.splits)


lemma distinct_add_overlap:
  "distinct (map fst m) \<Longrightarrow> distinct (map fst (add_overlap key i m))"
  by (simp add: add_overlap_def distinct_update split: option.splits)

lemma combinations2_short: "length xs \<le> 1 \<Longrightarrow> combinations2 xs = []"
  by (cases xs) auto

lemma add_vertex_foldl:
  "add_vertex i names m = foldl (\<lambda>acc key. add_overlap key i acc) m (combinations2 (sort names))"
  by (simp add: add_vertex_def combinations2_short)

lemma lookup_set_foldl:
  "lookup_set (foldl (\<lambda>acc key. add_overlap key i acc) m ks) k =
     (if k \<in> set ks then insert i (lookup_set m k) else lookup_set m k)"
  by (induction ks arbitrary: m) (auto simp: lookup_set_add_overlap)


lemma distinct_foldl:
  "distinct (map fst m) \<Longrightarrow> distinct (map fst (foldl (\<lambda>acc key. add_overlap key i acc) m ks))"
  by (induction ks arbitrary: m) (auto simp: distinct_add_overlap)






lemma active_group_names_length:
  "active_group_names vgs gs = Inr names \<Longrightarrow> length names = length (filter (\<lambda>g. g_weight g > 0) gs)"
  by (induction gs arbitrary: names) (auto split: if_splits sum.splits)

lemma active_group_names_set:
  "active_group_names vgs gs = Inr names \<Longrightarrow>
     set names = {vgs ! g_group g | g. g \<in> set gs \<and> g_weight g > 0}"
  by (induction gs arbitrary: names) (auto simp: group_name_def split: if_splits sum.splits)

lemma active_group_names_total:
  "(\<forall>g \<in> set gs. g_weight g > 0 \<longrightarrow> g_group g < length vgs) \<Longrightarrow>
     \<exists>names. active_group_names vgs gs = Inr names"
  by (induction gs) (auto simp: group_name_def split: if_splits sum.splits)

lemma scan_vertices_lookup:
  "scan_vertices vgs vs m = Inr m' \<Longrightarrow>
     lookup_set m' k = lookup_set m k \<union> {v_index v | v. v \<in> set vs \<and> k \<in> vertex_keys vgs v}"
proof (induction vs arbitrary: m)
  case Nil
  then show ?case by simp
next
  case (Cons v vs)
  then obtain names where n: "active_group_names vgs (v_groups v) = Inr names"
    and s: "scan_vertices vgs vs (add_vertex (v_index v) names m) = Inr m'"
    by (auto split: sum.splits)
  have "lookup_set (add_vertex (v_index v) names m) k =
        (if k \<in> vertex_keys vgs v then insert (v_index v) (lookup_set m k) else lookup_set m k)"
    by (simp add: add_vertex_foldl lookup_set_foldl vertex_keys_def n)
  with Cons.IH [OF s] show ?case by auto
qed


lemma scan_vertices_distinct:
  "scan_vertices vgs vs m = Inr m' \<Longrightarrow> distinct (map fst m) \<Longrightarrow> distinct (map fst m')"
proof (induction vs arbitrary: m)
  case Nil
  then show ?case by simp
next
  case (Cons v vs)
  then obtain names where n: "active_group_names vgs (v_groups v) = Inr names"
    and s: "scan_vertices vgs vs (add_vertex (v_index v) names m) = Inr m'"
    by (auto split: sum.splits)
  have "distinct (map fst (add_vertex (v_index v) names m))"
    using Cons.prems(2) by (simp add: add_vertex_foldl distinct_foldl)
  with Cons.IH [OF s] show ?case by simp
qed

lemma scan_vertices_total:
  "(\<forall>v \<in> set vs. \<forall>g \<in> set (v_groups v). g_weight g > 0 \<longrightarrow> g_group g < length vgs) \<Longrightarrow>
     \<exists>m'. scan_vertices vgs vs m = Inr m'"
proof (induction vs arbitrary: m)
  case Nil
  then show ?case by simp
next
  case (Cons v vs)
  then obtain names where "active_group_names vgs (v_groups v) = Inr names"
    using active_group_names_total [of "v_groups v" vgs] by auto
  with Cons show ?case by simp
qed

lemma set_update_cases:
  "e \<in> set (AList.update k v m) \<Longrightarrow> e = (k, v) \<or> e \<in> set m"
  by (induction m) (auto split: if_splits)

lemma sets_ok_add_overlap: "sets_ok m \<Longrightarrow> sets_ok (add_overlap key i m)"
  unfolding sets_ok_def add_overlap_def
  by (auto split: option.splits dest!: set_update_cases map_of_SomeD)

lemma sets_ok_foldl:
  "sets_ok m \<Longrightarrow> sets_ok (foldl (\<lambda>acc key. add_overlap key i acc) m ks)"
  by (induction ks arbitrary: m) (auto simp: sets_ok_add_overlap)

lemma scan_vertices_sets_ok:
  "scan_vertices vgs vs m = Inr m' \<Longrightarrow> sets_ok m \<Longrightarrow> sets_ok m'"
proof (induction vs arbitrary: m)
  case Nil
  then show ?case by simp
next
  case (Cons v vs)
  then obtain names where n: "active_group_names vgs (v_groups v) = Inr names"
    and s: "scan_vertices vgs vs (add_vertex (v_index v) names m) = Inr m'"
    by (auto split: sum.splits)
  have "sets_ok (add_vertex (v_index v) names m)"
    using Cons.prems(2) by (simp add: add_vertex_foldl sets_ok_foldl)
  with Cons.IH [OF s] show ?case by simp
qed

subsection \<open>Strings of vertex indices\<close>

lemma of_char_digit_char: "d < 10 \<Longrightarrow> (of_char (digit_char d) :: nat) = 48 + d"
  by (simp add: digit_char_def)

lemma isdigit_digit_char: "d < 10 \<Longrightarrow> isdigit (digit_char d)"
  by (simp add: isdigit_def of_char_digit_char)

lemma digit_val_digit_char: "d < 10 \<Longrightarrow> digit_val (digit_char d) = d"
  by (simp add: digit_val_def of_char_digit_char)

lemma str_nat_digits: "c \<in> set (str_nat n) \<Longrightarrow> isdigit c"
proof (induction n arbitrary: c rule: str_nat.induct)
  case (1 n)
  show ?case
  proof (cases "n < 10")
    case True
    with "1.prems" show ?thesis by (simp add: str_nat.simps [of n] isdigit_digit_char)
  next
    case False
    with "1.prems" "1.IH" show ?thesis
      by (auto simp: str_nat.simps [of n] isdigit_digit_char)
  qed
qed

lemma str_nat_nonempty: "str_nat n \<noteq> []"
  by (subst str_nat.simps) simp

lemma isdigit_not_special:
  "isdigit c \<Longrightarrow> \<not> isspace c \<and> c \<noteq> CHR '','' \<and> c \<noteq> CHR ''-'' \<and> c \<noteq> CHR ''+'' \<and> c \<noteq> CHR ''_''"
  by (auto simp: isdigit_def isspace_def Let_def)

lemma strip_id: "s \<noteq> [] \<Longrightarrow> \<not> isspace (hd s) \<Longrightarrow> \<not> isspace (last s) \<Longrightarrow> strip s = s"
proof -
  assume a: "s \<noteq> []" "\<not> isspace (hd s)" "\<not> isspace (last s)"
  then have "dropWhile isspace s = s" by (cases s) auto
  moreover have "dropWhile isspace (rev s) = rev s"
    using a by (cases "rev s") (auto simp: last_rev [symmetric])
  ultimately show ?thesis by (simp add: strip_def)
qed

lemma grouped_digits_all: "s \<noteq> [] \<Longrightarrow> \<forall>c \<in> set s. isdigit c \<Longrightarrow> grouped_digits s"
  by (induction s rule: grouped_digits.induct) (auto dest: isdigit_not_special)

lemma digits_value_snoc:
  "isdigit d \<Longrightarrow> digits_value (s @ [d]) = 10 * digits_value s + digit_val d"
  by (simp add: digits_value_def)

lemma digits_value_str_nat: "digits_value (str_nat n) = n"
proof (induction n rule: str_nat.induct)
  case (1 n)
  show ?case
  proof (cases "n < 10")
    case True
    then show ?thesis
      by (simp add: str_nat.simps [of n] digits_value_def isdigit_digit_char digit_val_digit_char)
  next
    case False
    then have "digits_value (str_nat n) = 10 * digits_value (str_nat (n div 10)) + digit_val (digit_char (n mod 10))"
      by (simp add: str_nat.simps [of n] digits_value_snoc isdigit_digit_char)
    with False "1.IH" show ?thesis by (simp add: digit_val_digit_char)
  qed
qed

lemma strip_str_nat: "strip (str_nat n) = str_nat n"
proof (rule strip_id)
  show ne: "str_nat n \<noteq> []" by (rule str_nat_nonempty)
  show "\<not> isspace (hd (str_nat n))"
    using ne str_nat_digits [of "hd (str_nat n)" n] isdigit_not_special by auto
  show "\<not> isspace (last (str_nat n))"
    using ne str_nat_digits [of "last (str_nat n)" n] isdigit_not_special by auto
qed

lemma py_int_str_nat: "py_int (str_nat n) = Inr (int n)"
proof -
  obtain c cs where s: "str_nat n = c # cs"
    using str_nat_nonempty [of n] by (cases "str_nat n") auto
  have d: "\<forall>x \<in> set (c # cs). isdigit x"
    using str_nat_digits [of _ n] by (simp add: s)
  then have "c \<noteq> CHR ''-''" "c \<noteq> CHR ''+''"
    using isdigit_not_special [of c] by auto
  moreover have "grouped_digits (c # cs)"
    using d by (intro grouped_digits_all) auto
  moreover have "digits_value (c # cs) = n"
    using digits_value_str_nat [of n] by (simp add: s)
  moreover have "strip (c # cs) = c # cs"
    using strip_str_nat [of n] by (simp add: s)
  ultimately show ?thesis by (simp add: py_int_def s)
qed

lemma parse_pieces_str_nat: "parse_pieces (map str_nat xs) = Inr (map int xs)"
  by (induction xs) (auto simp: py_int_str_nat strip_str_nat str_nat_nonempty)

lemma split_comma_no_comma: "CHR '','' \<notin> set s \<Longrightarrow> split_comma s = [s]"
  by (induction s) auto

lemma split_comma_append:
  "CHR '','' \<notin> set s \<Longrightarrow> split_comma (s @ CHR '','' # t) = s # split_comma t"
  by (induction s) auto

lemma split_comma_join:
  "xs \<noteq> [] \<Longrightarrow> \<forall>x \<in> set xs. CHR '','' \<notin> set x \<Longrightarrow> split_comma (join '','' xs) = xs"
proof (induction xs rule: induct_list012)
  case 1
  then show ?case by simp
next
  case (2 x)
  then show ?case by (simp add: split_comma_no_comma)
next
  case (3 x y zs)
  then show ?case by (simp add: split_comma_append)
qed

lemma strip_empty_iff: "strip s = [] \<longleftrightarrow> (\<forall>c \<in> set s. isspace c)"
proof -
  have "dropWhile isspace s = []" if "\<forall>x \<in> set (dropWhile isspace s). isspace x"
  proof (rule ccontr)
    assume ne: "dropWhile isspace s \<noteq> []"
    then have "\<not> isspace (hd (dropWhile isspace s))" by (rule hd_dropWhile)
    moreover have "hd (dropWhile isspace s) \<in> set (dropWhile isspace s)" using ne by (rule hd_in_set)
    ultimately show False using that by blast
  qed
  moreover have "\<forall>x \<in> set (dropWhile isspace s). isspace x" if "dropWhile isspace s = []"
    by (simp only: that list.set ball_empty)
  ultimately have "(\<forall>x \<in> set (dropWhile isspace s). isspace x) \<longleftrightarrow> dropWhile isspace s = []"
    by blast
  also have "\<dots> \<longleftrightarrow> (\<forall>c \<in> set s. isspace c)"
    by simp
  finally show ?thesis by (simp add: strip_def)
qed

lemma set_join_subset: "c \<in> set (join sep xs) \<Longrightarrow> c \<in> set sep \<or> (\<exists>x \<in> set xs. c \<in> set x)"
  by (induction sep xs rule: join.induct) auto

lemma hd_in_join: "x \<noteq> [] \<Longrightarrow> hd x \<in> set (join sep (x # xs))"
  by (cases xs) auto

lemma entry_indices_make_item:
  assumes "finite s"
  shows "entry_indices (make_item ((g1, g2), s)) = int ` s"
proof (cases "s = {}")
  case True
  then show ?thesis by (simp add: entry_indices_def make_item_def strip_def)
next
  case False
  define xs where "xs = sorted_list_of_set s"
  have ne: "xs \<noteq> []" using False assms by (simp add: xs_def)
  then obtain y ys where xs: "xs = y # ys" by (cases xs) auto
  have v: "verts (make_item ((g1, g2), s)) = join '','' (map str_nat xs)"
    by (simp add: make_item_def xs_def)
  have "hd (str_nat y) \<in> set (join '','' (map str_nat xs))"
    using hd_in_join [OF str_nat_nonempty] by (simp add: xs)
  moreover have "\<not> isspace (hd (str_nat y))"
    using str_nat_nonempty [of y] str_nat_digits [of "hd (str_nat y)" y] isdigit_not_special by auto
  ultimately have nb: "strip (join '','' (map str_nat xs)) \<noteq> []"
    by (auto simp: strip_empty_iff)
  have "\<forall>x \<in> set (map str_nat xs). CHR '','' \<notin> set x"
    using str_nat_digits isdigit_not_special by auto
  then have "split_comma (join '','' (map str_nat xs)) = map str_nat xs"
    using ne by (intro split_comma_join) auto
  then have "parse_pieces (split_comma (join '','' (map str_nat xs))) = Inr (map int xs)"
    by (simp add: parse_pieces_str_nat)
  with nb v have "entry_indices (make_item ((g1, g2), s)) = set (map int xs)"
    by (simp add: entry_indices_def)
  then show ?thesis using assms by (simp add: xs_def)
qed

subsection \<open>The materializer\<close>

lemma collect_item_eq:
  "collect_item item (I, n) = (if selected item then (I \<union> entry_indices item, Suc n) else (I, n))"
  by (auto simp: collect_item_def entry_indices_def split: sum.splits)

lemma chosen_union_Cons:
  "chosen_union (item # items) =
     (if selected item then entry_indices item \<union> chosen_union items else chosen_union items)"
  by (auto simp: chosen_union_def)

lemma foldl_collect_item:
  "foldl (\<lambda>st item. collect_item item st) (I, n) items =
     (I \<union> chosen_union items, n + length (filter selected items))"
proof (induction items arbitrary: I n)
  case Nil
  show ?case by (simp add: chosen_union_def)
next
  case (Cons item items)
  show ?case
    by (simp add: collect_item_eq chosen_union_Cons Cons.IH Un_assoc)
qed

lemma collect_indices_eq:
  "collect_indices items = (chosen_union items, length (filter selected items))"
  by (simp add: collect_indices_def foldl_collect_item)


lemma select_touching_deselect_all:
  "select_touching I (deselect_all faces) =
     (map (\<lambda>f. f\<lparr>f_select := touches I f\<rparr>) faces, length (filter (touches I) faces))"
  by (induction faces) (auto simp: select_touching_def deselect_all_def touches_def)


lemma select_overlap_vertices_status:
  "fst (select_overlap_vertices context overlap_list faces) = FINISHED \<longleftrightarrow>
     (\<exists>obj. active_object context = Some obj \<and> obj_type obj = ''MESH'') \<and>
     (\<exists>item \<in> set overlap_list. selected item) \<and> chosen_union overlap_list \<noteq> {}"
  by (auto simp: select_overlap_vertices_def collect_indices_eq select_touching_deselect_all
      validate_active_object_def filter_empty_conv
      split: sum.splits if_splits option.splits)



subsection \<open>The analyzer\<close>

lemma check_vertex_overlaps_finished:
  assumes "check_vertex_overlaps context old_list = (FINISHED, r, items)"
  shows "\<exists>obj m. active_object context = Some obj \<and> obj_type obj = ''MESH'' \<and>
           vertex_groups obj \<noteq> [] \<and>
           scan_vertices (vertex_groups obj) (vertices obj) [] = Inr m \<and> items = map make_item m"
  using assms
  by (auto simp: check_vertex_overlaps_def validate_active_object_def Let_def
      split: sum.splits if_splits option.splits)


lemma vertex_keys_few:
  "active_count v < 2 \<Longrightarrow> vertex_keys vgs v = {}"
  by (auto simp: vertex_keys_def active_count_def combinations2_short
      split: sum.splits dest!: active_group_names_length)


lemma scan_entry:
  assumes "scan_vertices vgs vs [] = Inr m" "e \<in> set m"
  shows "lookup_set m (fst e) = snd e" "finite (snd e)" "snd e \<noteq> {}"
proof -
  have "distinct (map fst m)" using scan_vertices_distinct [OF assms(1)] by simp
  then have "map_of m (fst e) = Some (snd e)" using assms(2) by (cases e) simp
  then show "lookup_set m (fst e) = snd e" by (simp add: lookup_set_def)
  have "sets_ok m" using scan_vertices_sets_ok [OF assms(1)] by (simp add: sets_ok_def)
  then show "finite (snd e)" "snd e \<noteq> {}" using assms(2) by (auto simp: sets_ok_def)
qed

lemma scan_entry_origin:
  assumes "scan_vertices vgs vs [] = Inr m" "e \<in> set m" "i \<in> snd e"
  shows "\<exists>v \<in> set vs. v_index v = i \<and> fst e \<in> vertex_keys vgs v"
proof -
  have "i \<in> lookup_set m (fst e)" using scan_entry(1) [OF assms(1,2)] assms(3) by simp
  then show ?thesis
    using scan_vertices_lookup [OF assms(1), of "fst e"] by (auto simp: lookup_set_def)
qed


lemma entry_indices_entry:
  assumes "scan_vertices vgs vs [] = Inr m" "e \<in> set m"
  shows "entry_indices (make_item e) = int ` snd e"
  using entry_indices_make_item [OF scan_entry(2) [OF assms], of "fst (fst e)" "snd (fst e)"]
  by simp



text \<open>
  C6. Minimality. In a mesh whose vertices have different indices, the index of a vertex
  with fewer than two active groups is in the set of no entry of the table, and in the
  index list of no emitted item.
\<close>

theorem analyze_minimal:
  assumes "scan_vertices vgs vs [] = Inr m"
    and "distinct (map v_index vs)"
    and "v \<in> set vs" and "active_count v < 2"
  shows "\<forall>e \<in> set m. v_index v \<notin> snd e \<and> int (v_index v) \<notin> entry_indices (make_item e)"
proof
  fix e assume e: "e \<in> set m"
  have "v_index v \<notin> snd e"
  proof
    assume "v_index v \<in> snd e"
    then obtain w where w: "w \<in> set vs" "v_index w = v_index v" "fst e \<in> vertex_keys vgs w"
      using scan_entry_origin [OF assms(1) e] by blast
    have "inj_on v_index (set vs)" using assms(2) by (simp add: distinct_map)
    then have "w = v" using w(1,2) assms(3) by (auto dest: inj_onD)
    then show False using w(3) vertex_keys_few [OF assms(4)] by simp
  qed
  then show "v_index v \<notin> snd e \<and> int (v_index v) \<notin> entry_indices (make_item e)"
    by (auto simp: entry_indices_entry [OF assms(1) e])
qed

theorem analyze_minimal_witness:
  "scan_vertices (vertex_groups ex_object) (vertices ex_object) [] = Inr ex_overlaps \<and>
   distinct (map v_index (vertices ex_object)) \<and>
   vertices ex_object ! 1 \<in> set (vertices ex_object) \<and>
   active_count (vertices ex_object ! 1) < 2 \<and>
   v_index (vertices ex_object ! 1) \<notin> snd (ex_overlaps ! 0) \<and>
   v_index (vertices ex_object ! 1) \<notin> snd (ex_overlaps ! 1) \<and>
   int (v_index (vertices ex_object ! 1)) \<notin> entry_indices (make_item (ex_overlaps ! 0)) \<and>
   int (v_index (vertices ex_object ! 1)) \<notin> entry_indices (make_item (ex_overlaps ! 1))"
proof -
  have h1: "scan_vertices (vertex_groups ex_object) (vertices ex_object) [] = Inr ex_overlaps"
    by code_simp
  have h2: "distinct (map v_index (vertices ex_object))"
    by (simp add: ex_object_def)
  have h3: "vertices ex_object ! 1 \<in> set (vertices ex_object)"
    by (simp add: ex_object_def)
  have h4: "active_count (vertices ex_object ! 1) < 2"
    by code_simp
  note t = analyze_minimal [OF h1 h2 h3 h4]
  have e0: "ex_overlaps ! 0 \<in> set ex_overlaps" and e1: "ex_overlaps ! 1 \<in> set ex_overlaps"
    by (simp_all add: ex_overlaps_def)
  from t e0 have a: "v_index (vertices ex_object ! 1) \<notin> snd (ex_overlaps ! 0) \<and>
      int (v_index (vertices ex_object ! 1)) \<notin> entry_indices (make_item (ex_overlaps ! 0))"
    by blast
  from t e1 have b: "v_index (vertices ex_object ! 1) \<notin> snd (ex_overlaps ! 1) \<and>
      int (v_index (vertices ex_object ! 1)) \<notin> entry_indices (make_item (ex_overlaps ! 1))"
    by blast
  show ?thesis using h1 h2 h3 h4 a b by blast
qed














subsection \<open>From the analyzer to the materializer\<close>

text \<open>
  Ticking the box of an item does not change the indices read from it, so on a list made by
  the analyzer the union that the materializer collects is the union of the sets of the
  ticked entries. A run of the materializer that does not finish leaves the faces as they
  were. The last lemma runs the analyzer on the example.
\<close>

lemma entry_indices_ticked: "entry_indices (item\<lparr>selected := b\<rparr>) = entry_indices item"
  by (simp add: entry_indices_def)

lemma chosen_union_ticked:
  assumes "scan_vertices vgs vs [] = Inr m"
  shows "chosen_union (map (\<lambda>(e, b). (make_item e)\<lparr>selected := b\<rparr>) (zip m ticks)) =
           (\<Union>(e, b) \<in> set (zip m ticks). if b then int ` snd e else {})"
proof -
  have "entry_indices (make_item e) = int ` snd e" if "(e, b) \<in> set (zip m ticks)" for e b
    using that by (intro entry_indices_entry [OF assms]) (auto dest: set_zip_leftD)
  then show ?thesis
    by (auto simp: chosen_union_def entry_indices_ticked split: if_splits)
qed

lemma select_overlap_vertices_not_finished:
  "fst (select_overlap_vertices context overlap_list faces) \<noteq> FINISHED \<Longrightarrow>
     snd (snd (select_overlap_vertices context overlap_list faces)) = faces"
  by (auto simp: select_overlap_vertices_def split: sum.splits if_splits prod.splits)

lemma example_analysis:
  "check_vertex_overlaps ex_context [] = (FINISHED, Some (INFO, ''Found 2 overlap pairs''), idle_items)"
  by code_simp

subsection \<open>Guards of the two operators\<close>

text \<open>
  On a mesh without vertex groups the analyzer does not finish with an empty list: it is
  cancelled with a warning, and a list stored by an earlier run is still there.
\<close>

theorem analyze_no_groups_counterexample:
  "(case active_object bare_context of Some obj \<Rightarrow> vertex_groups obj = [] | None \<Rightarrow> False) \<and>
   check_vertex_overlaps bare_context ex_items =
     (CANCELLED, Some (WARNING, ''No vertex groups found on this mesh''), ex_items) \<and>
   fst (check_vertex_overlaps bare_context ex_items) \<noteq> FINISHED \<and>
   snd (snd (check_vertex_overlaps bare_context ex_items)) \<noteq> []"
  by (simp add: check_vertex_overlaps_def validate_active_object_def bare_context_def ex_items_def)

text \<open>
  C3, as the code has it. On a mesh without vertex groups the analyzer is cancelled with the
  warning \<^verbatim>\<open>No vertex groups found on this mesh\<close>, before the stored list is cleared: the list
  is the one of before the call.
\<close>

theorem analyze_no_groups:
  assumes "active_object context = Some obj" and "obj_type obj = ''MESH''"
    and "vertex_groups obj = []"
  shows "check_vertex_overlaps context old_list =
           (CANCELLED, Some (WARNING, ''No vertex groups found on this mesh''), old_list)"
  using assms by (simp add: check_vertex_overlaps_def validate_active_object_def)

theorem analyze_no_groups_witness:
  "active_object bare_context = Some \<lparr> obj_type = ''MESH'', vertex_groups = [],
                vertices = [\<lparr> v_index = 0, v_groups = [] \<rparr>] \<rparr> \<and>
   check_vertex_overlaps bare_context ex_items =
     (CANCELLED, Some (WARNING, ''No vertex groups found on this mesh''), ex_items)"
proof -
  have h1: "active_object bare_context = Some \<lparr> obj_type = ''MESH'', vertex_groups = [],
                vertices = [\<lparr> v_index = 0, v_groups = [] \<rparr>] \<rparr>"
    by (simp add: bare_context_def)
  have h2: "obj_type \<lparr> obj_type = ''MESH'', vertex_groups = [],
                vertices = [\<lparr> v_index = 0, v_groups = [] \<rparr>] \<rparr> = ''MESH''" by simp
  have h3: "vertex_groups \<lparr> obj_type = ''MESH'', vertex_groups = [],
                vertices = [\<lparr> v_index = 0, v_groups = [] \<rparr>] \<rparr> = []" by simp
  show ?thesis by (rule conjI [OF h1 analyze_no_groups [OF h1 h2 h3]])
qed




text \<open>
  On an empty overlap list no item is ticked either, and the materializer reports that
  there are no overlaps. On a list without a ticked item the face selection of before the
  call, which may hold faces, is what the call leaves.
\<close>

theorem materialize_nothing_selected_counterexample:
  "filter selected ([] :: VertexOverlapItem list) = [] \<and>
   select_overlap_vertices ex_context [] ex_faces =
     (CANCELLED, Some (WARNING, ''No overlaps found. Run 'Check Vertex Overlaps' first''), ex_faces) \<and>
   ''No overlaps found. Run 'Check Vertex Overlaps' first'' \<noteq>
     ''No overlap items selected. Check the boxes next to the items you want to select'' \<and>
   filter selected idle_items = [] \<and>
   snd (snd (select_overlap_vertices ex_context idle_items ex_faces)) = ex_faces \<and>
   filter f_select ex_faces \<noteq> []"
  by (simp add: select_overlap_vertices_def validate_active_object_def ex_context_def
      ex_object_def idle_items_def ex_faces_def collect_indices_eq)

text \<open>
  C7, as the code has it. On a non-empty overlap list without a ticked item the
  materializer is cancelled, leaves the faces as they were, and warns that no item is
  selected. That message differs from the one for an empty list and from the one for ticked
  items whose indices are all missing.
\<close>

theorem materialize_nothing_selected:
  assumes "active_object context = Some obj" and "obj_type obj = ''MESH''"
    and "overlap_list \<noteq> []" and "\<forall>item \<in> set overlap_list. \<not> selected item"
  shows "select_overlap_vertices context overlap_list faces =
           (CANCELLED,
            Some (WARNING, ''No overlap items selected. Check the boxes next to the items you want to select''),
            faces) \<and>
         select_overlap_vertices context [] faces =
           (CANCELLED, Some (WARNING, ''No overlaps found. Run 'Check Vertex Overlaps' first''), faces) \<and>
         (\<forall>ol. (\<exists>item \<in> set ol. selected item) \<and> chosen_union ol = {} \<longrightarrow>
            select_overlap_vertices context ol faces =
              (CANCELLED, Some (WARNING, ''No vertices found in selected overlap items''), faces)) \<and>
         ''No overlap items selected. Check the boxes next to the items you want to select'' \<noteq>
           ''No overlaps found. Run 'Check Vertex Overlaps' first'' \<and>
         ''No overlap items selected. Check the boxes next to the items you want to select'' \<noteq>
           ''No vertices found in selected overlap items''"
proof (intro conjI allI impI)
  have v: "validate_active_object context ''MESH'' False = Inr obj"
    using assms(1,2) by (simp add: validate_active_object_def)
  have "filter selected overlap_list = []" using assms(4) by (simp add: filter_empty_conv)
  then show "select_overlap_vertices context overlap_list faces =
           (CANCELLED,
            Some (WARNING, ''No overlap items selected. Check the boxes next to the items you want to select''),
            faces)"
    using assms(3) by (simp add: select_overlap_vertices_def v collect_indices_eq)
  show "select_overlap_vertices context [] faces =
           (CANCELLED, Some (WARNING, ''No overlaps found. Run 'Check Vertex Overlaps' first''), faces)"
    by (simp add: select_overlap_vertices_def v)
  show "select_overlap_vertices context ol faces =
              (CANCELLED, Some (WARNING, ''No vertices found in selected overlap items''), faces)"
    if "(\<exists>item \<in> set ol. selected item) \<and> chosen_union ol = {}" for ol
  proof -
    have "ol \<noteq> []" "filter selected ol \<noteq> []" using that by (auto simp: filter_empty_conv)
    then show ?thesis using that
      by (simp add: select_overlap_vertices_def v collect_indices_eq)
  qed
qed simp_all

theorem materialize_nothing_selected_witness:
  "active_object ex_context = Some ex_object \<and> obj_type ex_object = ''MESH'' \<and>
   idle_items \<noteq> [] \<and> filter selected idle_items = [] \<and>
   select_overlap_vertices ex_context idle_items ex_faces =
     (CANCELLED,
      Some (WARNING, ''No overlap items selected. Check the boxes next to the items you want to select''),
      ex_faces)"
proof -
  have h1: "active_object ex_context = Some ex_object" by (simp add: ex_context_def)
  have h2: "obj_type ex_object = ''MESH''" by (simp add: ex_object_def)
  have h3: "idle_items \<noteq> []" by (simp add: idle_items_def)
  have h4: "\<forall>item \<in> set idle_items. \<not> selected item" by (simp add: idle_items_def)
  have h5: "filter selected idle_items = []" by (simp add: idle_items_def)
  note t = materialize_nothing_selected [OF h1 h2 h3 h4, of ex_faces]
  show ?thesis using h1 h2 h3 h5 t by blast
qed

end
